theory Spec2Isabelle
  imports Complex_Main "HOL-Library.Log_Nat"
begin

section \<open>Data model\<close>

text \<open>
  The dashboard script \<^verbatim>\<open>app.py\<close> loads six sheets of a workbook and derives every
  metric from them. Each sheet is a list of rows (a record per row, in sheet order);
  identifiers of godowns, shops and vehicles are values of one ordered type \<open>'id\<close>;
  days are Python integers (\<open>int\<close>). A quantity is a double: it is held as the
  rational number the double stands for (\<open>rat\<close>), and every arithmetic operation of the
  script rounds its exact result to the nearest double. A missing cell (pandas NaN) is
  \<open>None\<close> of an option type.
\<close>

datatype py_error = ZeroDivisionError | OverflowError | ValueError | KeyError | TypeError

section \<open>Double-precision arithmetic\<close>

text \<open>
  IEEE 754 binary64, round to nearest, ties to even: a non-zero number is scaled by a
  power of two to a significand in \<open>[2^52, 2^53)\<close>, the significand is rounded to an
  integer, and the scaling is undone. The exponent range is not bounded (quantities in
  tons are far from the overflow and subnormal ranges); infinities and NaN appear only
  where the script can produce them, at the division by a zero capacity, and are
  written out there.
\<close>

definition pow2 :: "int \<Rightarrow> rat" where
  "pow2 k = (if 0 \<le> k then 2 ^ nat k else 1 / 2 ^ nat (- k))"

text \<open>For \<open>x > 0\<close>: the exponent \<open>e\<close> with \<open>2^e \<le> x < 2^(e+1)\<close>.\<close>

definition log2_floor :: "rat \<Rightarrow> int" where
  "log2_floor x =
     (let k = bitlen (fst (quotient_of x)) - bitlen (snd (quotient_of x))
      in if pow2 k \<le> x then k else k - 1)"

definition round_half_even :: "rat \<Rightarrow> int" where
  "round_half_even m =
     (let f = \<lfloor>m\<rfloor>; r = m - of_int f
      in if r < 1 / 2 then f else if 1 / 2 < r then f + 1 else if even f then f else f + 1)"

definition round_double :: "rat \<Rightarrow> rat" where
  "round_double x =
     (if x = 0 then 0
      else let u = pow2 (log2_floor \<bar>x\<bar> - 52)
           in of_int (round_half_even (x / u)) * u)"

definition fadd :: "rat \<Rightarrow> rat \<Rightarrow> rat" where
  "fadd a b = round_double (a + b)"

definition fsub :: "rat \<Rightarrow> rat \<Rightarrow> rat" where
  "fsub a b = round_double (a - b)"

definition fmul :: "rat \<Rightarrow> rat \<Rightarrow> rat" where
  "fmul a b = round_double (a * b)"

text \<open>The quotient for a non-zero divisor; every use below tests the divisor first.\<close>

definition fdiv :: "rat \<Rightarrow> rat \<Rightarrow> rat" where
  "fdiv a b = round_double (a / b)"

text \<open>A Python integer used in float arithmetic is converted to the nearest double.\<close>

definition double_of_int :: "int \<Rightarrow> rat" where
  "double_of_int n = round_double (of_int n)"

text \<open>
  The scalars of the offset loop: \<^verbatim>\<open>cum_need\<close> starts as the Python integer 0 and
  becomes a numpy double once a day total has been added to it. The two kinds divide
  by zero differently.
\<close>

datatype py_num = PyInt int | NpFloat rat

fun num_add :: "py_num \<Rightarrow> py_num \<Rightarrow> py_num" where
  "num_add (PyInt a) (PyInt b) = PyInt (a + b)"
| "num_add (PyInt a) (NpFloat v) = NpFloat (fadd (double_of_int a) v)"
| "num_add (NpFloat u) (PyInt b) = NpFloat (fadd u (double_of_int b))"
| "num_add (NpFloat u) (NpFloat v) = NpFloat (fadd u v)"

fun num_float :: "py_num \<Rightarrow> rat" where
  "num_float (PyInt a) = double_of_int a"
| "num_float (NpFloat v) = v"

record settings =
  Distribution_Days :: int
  Vehicle_Capacity_tons :: rat
  Vehicles_Total :: int
  Max_Trips_Per_Vehicle_Per_Day :: int

record 'id cg_dispatch =
  cg_Dispatch_Day :: int
  cg_LG_ID :: 'id
  cg_Quantity_tons :: rat

record 'id lg_dispatch =
  lf_Day :: int
  lf_LG_ID :: 'id
  lf_FPS_ID :: 'id
  lf_Vehicle_ID :: 'id
  lf_Quantity_tons :: rat

record 'id stock_level =
  sl_Entity_Type :: string
  sl_Entity_ID :: 'id
  sl_Day :: int
  sl_Stock_Level_tons :: rat

record 'id lg_reg =
  LG_ID :: 'id
  Storage_Capacity_tons :: rat

record 'id fps_reg =
  FPS_ID :: 'id
  FPS_Name :: string
  Reorder_Threshold_tons :: rat

section \<open>Settings (lines 34-38)\<close>

definition DAYS :: "settings \<Rightarrow> int" where
  "DAYS s = Distribution_Days s"

definition TRUCK_CAP :: "settings \<Rightarrow> rat" where
  "TRUCK_CAP s = round_double (Vehicle_Capacity_tons s)"

definition MAX_TRIPS :: "settings \<Rightarrow> int" where
  "MAX_TRIPS s = Vehicles_Total s * Max_Trips_Per_Vehicle_Per_Day s"

definition DAILY_CAP :: "settings \<Rightarrow> rat" where
  "DAILY_CAP s = fmul (double_of_int (MAX_TRIPS s)) (TRUCK_CAP s)"

section \<open>The pandas operations the script uses\<close>

text \<open>
  \<^verbatim>\<open>df.groupby(key)[val].sum()\<close>: one entry per distinct key, keys ascending, the
  values of the group added up (pandas adds a group with a compensated sum; the model
  takes the exact sum of the group). \<^verbatim>\<open>.nunique()\<close> counts the distinct values of the
  group.
\<close>

definition groupby_sum :: "('r \<Rightarrow> int) \<Rightarrow> ('r \<Rightarrow> rat) \<Rightarrow> 'r list \<Rightarrow> (int \<times> rat) list" where
  "groupby_sum key val rows =
     map (\<lambda>k. (k, sum_list (map val (filter (\<lambda>r. key r = k) rows))))
       (sort (remdups (map key rows)))"

definition groupby_nunique :: "('r \<Rightarrow> int) \<Rightarrow> ('r \<Rightarrow> 'v) \<Rightarrow> 'r list \<Rightarrow> (int \<times> nat) list" where
  "groupby_nunique key val rows =
     map (\<lambda>k. (k, length (remdups (map val (filter (\<lambda>r. key r = k) rows)))))
       (sort (remdups (map key rows)))"

text \<open>
  \<^verbatim>\<open>series.get(k, default)\<close>: the numpy double stored under \<open>k\<close>, or the default as it
  was passed.
\<close>

definition series_get :: "(int \<times> rat) list \<Rightarrow> int \<Rightarrow> py_num \<Rightarrow> py_num" where
  "series_get s k dflt = (case map_of s k of None \<Rightarrow> dflt | Some v \<Rightarrow> NpFloat v)"

text \<open>
  \<^verbatim>\<open>series.sum()\<close>: numpy adds the values in order, starting from zero, each addition
  rounded (its loop for fewer than eight values; longer arrays are added in blocks,
  which can differ in the last bit).
\<close>

definition series_sum :: "rat list \<Rightarrow> rat" where
  "series_sum vs = foldl fadd 0 vs"

text \<open>
  \<^verbatim>\<open>series.query(...)["Quantity_tons"].sum()\<close> on a table of day totals: the rows whose
  day passes the test, their quantities added (0 for no row).
\<close>

definition query_sum :: "(int \<Rightarrow> bool) \<Rightarrow> (int \<times> rat) list \<Rightarrow> rat" where
  "query_sum P tbl = series_sum (map snd (filter (\<lambda>r. P (fst r)) tbl))"

text \<open>Python's \<^verbatim>\<open>max\<close> of a list raises ValueError on the empty list.\<close>

fun py_max :: "int list \<Rightarrow> py_error + int" where
  "py_max [] = Inl ValueError"
| "py_max (x # xs) = Inr (fold max xs x)"

section \<open>Pre-dispatch offset X (lines 41-51)\<close>

text \<open>
  The two expressions of the loop body, \<^verbatim>\<open>(cum_need - DAILY_CAP * d) / DAILY_CAP\<close> and
  \<^verbatim>\<open>math.ceil(over) if over>0 else 0\<close>, for a non-zero capacity: product, difference and
  quotient are each rounded, and the ceiling is taken of the rounded quotient.
\<close>

definition over_of :: "rat \<Rightarrow> rat \<Rightarrow> int \<Rightarrow> rat" where
  "over_of cap cum_need d = fdiv (fsub cum_need (fmul cap (double_of_int d))) cap"

definition adv_of :: "rat \<Rightarrow> int" where
  "adv_of over = (if over > 0 then \<lceil>over\<rceil> else 0)"

text \<open>
  The entry appended for day \<open>d\<close>. With \<open>DAILY_CAP = 0.0\<close> the division depends on the
  kind of \<^verbatim>\<open>cum_need\<close>: a Python number raises ZeroDivisionError; a numpy double gives
  \<open>inf\<close> for a positive numerator, on which \<^verbatim>\<open>math.ceil\<close> raises OverflowError, and
  \<open>nan\<close> or \<open>-inf\<close> otherwise, for which \<^verbatim>\<open>over>0\<close> is false and 0 is appended.
\<close>

definition adv_entry :: "rat \<Rightarrow> py_num \<Rightarrow> int \<Rightarrow> py_error + int" where
  "adv_entry cap cum_need d =
     (if cap \<noteq> 0 then Inr (adv_of (over_of cap (num_float cum_need) d))
      else (case cum_need of
              PyInt c \<Rightarrow> Inl ZeroDivisionError
            | NpFloat c \<Rightarrow>
                if fsub c (fmul cap (double_of_int d)) > 0 then Inl OverflowError else Inr 0))"

text \<open>One pass of the loop body for day \<open>d\<close>; the state is \<open>(cum_need, adv)\<close>.\<close>

definition adv_step ::
  "(int \<times> rat) list \<Rightarrow> rat \<Rightarrow> int \<Rightarrow> py_num \<times> int list \<Rightarrow> py_error + py_num \<times> int list" where
  "adv_step daily_total_cg cap d st =
     (let need = series_get daily_total_cg d (PyInt 0);
          cum_need = num_add (fst st) need
      in case adv_entry cap cum_need d of
           Inl e \<Rightarrow> Inl e
         | Inr a \<Rightarrow> Inr (cum_need, snd st @ [a]))"

text \<open>\<^verbatim>\<open>for d in range(1, DAYS+1)\<close>, run over the list of days; an exception ends it.\<close>

fun adv_loop ::
  "(int \<times> rat) list \<Rightarrow> rat \<Rightarrow> int list \<Rightarrow> py_num \<times> int list \<Rightarrow> py_error + py_num \<times> int list" where
  "adv_loop daily_total_cg cap [] st = Inr st"
| "adv_loop daily_total_cg cap (d # ds) st =
     (case adv_step daily_total_cg cap d st of
        Inl e \<Rightarrow> Inl e
      | Inr st' \<Rightarrow> adv_loop daily_total_cg cap ds st')"

definition compute_X :: "settings \<Rightarrow> 'id cg_dispatch list \<Rightarrow> py_error + int" where
  "compute_X s dispatch_cg =
     (let daily_total_cg = groupby_sum cg_Dispatch_Day cg_Quantity_tons dispatch_cg
      in case adv_loop daily_total_cg (DAILY_CAP s) [1..DAYS s] (PyInt 0, []) of
           Inl e \<Rightarrow> Inl e
         | Inr st \<Rightarrow> py_max (snd st))"

definition MIN_DAY :: "int \<Rightarrow> int" where
  "MIN_DAY x = 1 - x"

definition MAX_DAY :: "settings \<Rightarrow> int" where
  "MAX_DAY s = DAYS s"

text \<open>The sidebar's \<^verbatim>\<open>st.slider\<close> (lines 94-99): its bounds and its initial value.\<close>

record slider =
  min_value :: int
  max_value :: int
  initial_value :: "int \<times> int"

definition day_range_slider :: "settings \<Rightarrow> 'id cg_dispatch list \<Rightarrow> py_error + slider" where
  "day_range_slider s dispatch_cg =
     (case compute_X s dispatch_cg of
        Inl e \<Rightarrow> Inl e
      | Inr x \<Rightarrow> Inr \<lparr>min_value = MIN_DAY x, max_value = MAX_DAY s,
                       initial_value = (MIN_DAY x, MAX_DAY s)\<rparr>)"

text \<open>
  The demand the offset is measured against, from the raw dispatch records and in exact
  arithmetic: the quantity requested on day \<open>k\<close>, the running sum through day \<open>d\<close> of
  the horizon, and the test that starting \<open>x\<close> days early keeps every day of the horizon
  within capacity.
\<close>

definition daily_demand :: "'id cg_dispatch list \<Rightarrow> int \<Rightarrow> rat" where
  "daily_demand dispatch_cg k =
     sum_list (map cg_Quantity_tons (filter (\<lambda>r. cg_Dispatch_Day r = k) dispatch_cg))"

definition cumulative_demand :: "'id cg_dispatch list \<Rightarrow> int \<Rightarrow> rat" where
  "cumulative_demand dispatch_cg d = sum_list (map (daily_demand dispatch_cg) [1..d])"

definition within_capacity :: "settings \<Rightarrow> 'id cg_dispatch list \<Rightarrow> int \<Rightarrow> bool" where
  "within_capacity s dispatch_cg x =
     list_all (\<lambda>d. cumulative_demand dispatch_cg d \<le> DAILY_CAP s * of_int (d + x)) [1..DAYS s]"

section \<open>Aggregation views (lines 54-85)\<close>

definition day_totals_cg :: "'id cg_dispatch list \<Rightarrow> (int \<times> rat) list" where
  "day_totals_cg dispatch_cg = groupby_sum cg_Dispatch_Day cg_Quantity_tons dispatch_cg"

definition day_totals_lg :: "'id lg_dispatch list \<Rightarrow> (int \<times> rat) list" where
  "day_totals_lg dispatch_lg = groupby_sum lf_Day lf_Quantity_tons dispatch_lg"

definition veh_usage :: "'id lg_dispatch list \<Rightarrow> (int \<times> nat) list" where
  "veh_usage dispatch_lg = groupby_nunique lf_Day lf_Vehicle_ID dispatch_lg"

definition total_plan :: "'id lg_dispatch list \<Rightarrow> rat" where
  "total_plan dispatch_lg = series_sum (map snd (day_totals_lg dispatch_lg))"

text \<open>
  A day-indexed table with one column per godown: the index (ascending days) and, per
  column, the cells down the index. \<open>None\<close> is a missing cell (NaN).
\<close>

record 'id frame =
  frame_index :: "int list"
  frame_columns :: "('id \<times> rat option list) list"

text \<open>
  \<^verbatim>\<open>.pivot(index="Day", columns="Entity_ID", values="Stock_Level_tons")\<close>: ValueError
  when a (day, entity) pair occurs twice; otherwise days and entities ascending, a cell
  holding the value of its row, missing when there is no row.
\<close>

definition pivot_cell :: "'id stock_level list \<Rightarrow> int \<Rightarrow> 'id \<Rightarrow> rat option" where
  "pivot_cell rows d c =
     map_option sl_Stock_Level_tons (find (\<lambda>r. sl_Day r = d \<and> sl_Entity_ID r = c) rows)"

definition pivot :: "('id::linorder) stock_level list \<Rightarrow> py_error + 'id frame" where
  "pivot rows =
     (if \<not> distinct (map (\<lambda>r. (sl_Day r, sl_Entity_ID r)) rows) then Inl ValueError
      else
        let idx = sort (remdups (map sl_Day rows));
            cols = sort (remdups (map sl_Entity_ID rows))
        in Inr \<lparr>frame_index = idx,
                frame_columns =
                  map (\<lambda>c. (c, map (\<lambda>d. pivot_cell rows d c) idx)) cols\<rparr>)"

text \<open>
  \<^verbatim>\<open>.fillna(method="ffill")\<close>: down each column, a missing cell takes the last value
  seen above it (\<open>prev\<close>), and stays missing when there is none.
\<close>

fun ffill_col :: "rat option \<Rightarrow> rat option list \<Rightarrow> rat option list" where
  "ffill_col prev [] = []"
| "ffill_col prev (None # cs) = prev # ffill_col prev cs"
| "ffill_col prev (Some v # cs) = Some v # ffill_col (Some v) cs"

definition ffill :: "'id frame \<Rightarrow> 'id frame" where
  "ffill t = t\<lparr>frame_columns := map (\<lambda>c. (fst c, ffill_col None (snd c))) (frame_columns t)\<rparr>"

definition lg_stock :: "('id::linorder) stock_level list \<Rightarrow> py_error + 'id frame" where
  "lg_stock stock_levels =
     (case pivot (filter (\<lambda>r. sl_Entity_Type r = ''LG'') stock_levels) of
        Inl e \<Rightarrow> Inl e
      | Inr t \<Rightarrow> Inr (ffill t))"

text \<open>
  The day of a godown's earliest snapshot in the sheet (none when it has no snapshot):
  the notion the statements about the timeline's leading cells refer to.
\<close>

definition first_snapshot_day :: "'id stock_level list \<Rightarrow> 'id \<Rightarrow> int option" where
  "first_snapshot_day stock_levels l =
     (case map sl_Day
             (filter (\<lambda>r. sl_Entity_Type r = ''LG'' \<and> sl_Entity_ID r = l) stock_levels) of
        [] \<Rightarrow> None
      | x # xs \<Rightarrow> Some (fold min xs x))"

text \<open>\<^verbatim>\<open>frame.loc[d, l]\<close>: KeyError for a day or a column the table does not have.\<close>

definition frame_at :: "'id frame \<Rightarrow> int \<Rightarrow> 'id \<Rightarrow> py_error + rat option" where
  "frame_at t d l =
     (case map_of (frame_columns t) l of
        None \<Rightarrow> Inl KeyError
      | Some col \<Rightarrow>
          (case map_of (zip (frame_index t) col) d of
             None \<Rightarrow> Inl KeyError
           | Some c \<Rightarrow> Inr c))"

text \<open>\<^verbatim>\<open>frame.loc[d, selected]\<close> for a list of columns: the cells of row \<open>d\<close>, in the list's order.\<close>

fun frame_loc :: "'id frame \<Rightarrow> int \<Rightarrow> 'id list \<Rightarrow> py_error + rat option list" where
  "frame_loc t d [] = (if d \<in> set (frame_index t) then Inr [] else Inl KeyError)"
| "frame_loc t d (l # ls) =
     (case frame_at t d l of
        Inl e \<Rightarrow> Inl e
      | Inr c \<Rightarrow> (case frame_loc t d ls of Inl e \<Rightarrow> Inl e | Inr cs \<Rightarrow> Inr (c # cs)))"

text \<open>
  \<^verbatim>\<open>series.sum()\<close> with pandas' default \<^verbatim>\<open>skipna=True\<close>: a missing cell counts as 0.0,
  whose addition changes no double, so the running sum passes it over.
\<close>

fun nansum_from :: "rat \<Rightarrow> rat option list \<Rightarrow> rat" where
  "nansum_from acc [] = acc"
| "nansum_from acc (None # cs) = nansum_from acc cs"
| "nansum_from acc (Some v # cs) = nansum_from (fadd acc v) cs"

definition nansum :: "rat option list \<Rightarrow> rat" where
  "nansum cs = nansum_from 0 cs"

text \<open>
  The shop snapshots joined to the registry (inner \<^verbatim>\<open>merge\<close> on the shop id, in
  snapshot order), with the at-risk column of line 82.
\<close>

record 'id fps_stock_row =
  fs_Day :: int
  fs_FPS_ID :: 'id
  fs_Stock_Level_tons :: rat
  fs_Reorder_Threshold_tons :: rat
  At_Risk :: bool

definition fps_stock_join :: "'id stock_level \<Rightarrow> 'id fps_reg \<Rightarrow> 'id fps_stock_row" where
  "fps_stock_join s f =
     \<lparr>fs_Day = sl_Day s, fs_FPS_ID = FPS_ID f,
      fs_Stock_Level_tons = sl_Stock_Level_tons s,
      fs_Reorder_Threshold_tons = Reorder_Threshold_tons f,
      At_Risk = (sl_Stock_Level_tons s \<le> Reorder_Threshold_tons f)\<rparr>"

definition fps_stock :: "'id stock_level list \<Rightarrow> 'id fps_reg list \<Rightarrow> 'id fps_stock_row list" where
  "fps_stock stock_levels fps =
     concat (map (\<lambda>s. map (fps_stock_join s) (filter (\<lambda>f. FPS_ID f = sl_Entity_ID s) fps))
       (filter (\<lambda>s. sl_Entity_Type s = ''FPS'') stock_levels))"

section \<open>Per-shop projection (lines 175-190)\<close>

definition end_day :: "settings \<Rightarrow> int \<times> int \<Rightarrow> int" where
  "end_day s day_range = min (snd day_range) (DAYS s)"

record 'id fps_data_row =
  fd_FPS_ID :: 'id
  fd_FPS_Name :: "string list"
  Current_Stock_tons :: rat
  Next_Receipt_Day :: "int option"
  Days_To_Receipt :: "int option"

text \<open>\<^verbatim>\<open>float(series)\<close>: the value of a one-element series, TypeError otherwise.\<close>

definition series_float :: "rat list \<Rightarrow> py_error + rat" where
  "series_float vs = (case vs of [v] \<Rightarrow> Inr v | _ \<Rightarrow> Inl TypeError)"

text \<open>
  The loop body for one shop. \<^verbatim>\<open>fps.set_index("FPS_ID").loc[fps_id, "FPS_Name"]\<close> is
  the name of every registry row with that id (one name when ids are unique).
  \<^verbatim>\<open>if next_day\<close> tests truthiness: it fails for \<open>None\<close> and for day 0.
\<close>

definition fps_data_entry ::
  "'id fps_reg list \<Rightarrow> 'id fps_stock_row list \<Rightarrow> 'id lg_dispatch list \<Rightarrow> int \<Rightarrow> 'id
     \<Rightarrow> py_error + 'id fps_data_row" where
  "fps_data_entry fps fstock dispatch_lg ed fps_id =
     (let stock_now = map fs_Stock_Level_tons
            (filter (\<lambda>r. fs_FPS_ID r = fps_id \<and> fs_Day r = ed) fstock)
      in case (if stock_now \<noteq> [] then series_float stock_now else Inr 0) of
           Inl e \<Rightarrow> Inl e
         | Inr stock_now' \<Rightarrow>
             (let future_days = map lf_Day
                    (filter (\<lambda>r. lf_FPS_ID r = fps_id \<and> lf_Day r > ed) dispatch_lg);
                  next_day = (case future_days of [] \<Rightarrow> None
                              | x # xs \<Rightarrow> Some (fold min xs x));
                  days_to = (case next_day of None \<Rightarrow> None
                             | Some n \<Rightarrow> if n \<noteq> 0 then Some (n - ed) else None)
              in Inr \<lparr>fd_FPS_ID = fps_id,
                      fd_FPS_Name = map FPS_Name (filter (\<lambda>f. FPS_ID f = fps_id) fps),
                      Current_Stock_tons = stock_now',
                      Next_Receipt_Day = next_day,
                      Days_To_Receipt = days_to\<rparr>))"

text \<open>\<^verbatim>\<open>for fps_id in fps.FPS_ID\<close>: the first exception ends the loop.\<close>

fun fps_data_loop ::
  "'id fps_reg list \<Rightarrow> 'id fps_stock_row list \<Rightarrow> 'id lg_dispatch list \<Rightarrow> int \<Rightarrow> 'id list
     \<Rightarrow> py_error + 'id fps_data_row list" where
  "fps_data_loop fps fstock dispatch_lg ed [] = Inr []"
| "fps_data_loop fps fstock dispatch_lg ed (fps_id # ids) =
     (case fps_data_entry fps fstock dispatch_lg ed fps_id of
        Inl e \<Rightarrow> Inl e
      | Inr row \<Rightarrow>
          (case fps_data_loop fps fstock dispatch_lg ed ids of
             Inl e \<Rightarrow> Inl e
           | Inr rows \<Rightarrow> Inr (row # rows)))"

definition fps_data ::
  "settings \<Rightarrow> 'id stock_level list \<Rightarrow> 'id fps_reg list \<Rightarrow> 'id lg_dispatch list \<Rightarrow> int \<times> int
     \<Rightarrow> py_error + 'id fps_data_row list" where
  "fps_data s stock_levels fps dispatch_lg day_range =
     fps_data_loop fps (fps_stock stock_levels fps) dispatch_lg (end_day s day_range)
       (map FPS_ID fps)"

section \<open>KPI rollup (lines 108-109 and 219-236)\<close>

text \<open>
  \<open>day_range\<close> is the pair the slider returns and \<open>selected_lgs\<close> the ticked columns of
  the godown timeline. The two totals are computed in the sidebar and reused here.
\<close>

definition cg_sel :: "'id cg_dispatch list \<Rightarrow> int \<times> int \<Rightarrow> rat" where
  "cg_sel dispatch_cg day_range =
     query_sum (\<lambda>d. d \<ge> fst day_range \<and> d \<le> snd day_range) (day_totals_cg dispatch_cg)"

definition lg_sel :: "'id lg_dispatch list \<Rightarrow> int \<times> int \<Rightarrow> rat" where
  "lg_sel dispatch_lg day_range =
     query_sum (\<lambda>d. d \<ge> 1 \<and> d \<le> snd day_range) (day_totals_lg dispatch_lg)"

definition sel_days :: "int \<times> int \<Rightarrow> int" where
  "sel_days day_range = snd day_range - max (fst day_range) 1 + 1"

definition avg_daily_cg :: "'id cg_dispatch list \<Rightarrow> int \<times> int \<Rightarrow> rat" where
  "avg_daily_cg dispatch_cg day_range =
     (if sel_days day_range > 0
      then fdiv (cg_sel dispatch_cg day_range) (double_of_int (sel_days day_range)) else 0)"

definition avg_daily_lg :: "'id lg_dispatch list \<Rightarrow> int \<times> int \<Rightarrow> rat" where
  "avg_daily_lg dispatch_lg day_range =
     (if sel_days day_range > 0
      then fdiv (lg_sel dispatch_lg day_range) (double_of_int (sel_days day_range)) else 0)"

text \<open>
  \<^verbatim>\<open>series.mean()\<close> of a column of counts: the sum over the length, missing (NaN) for
  an empty series.
\<close>

definition series_mean :: "nat list \<Rightarrow> rat option" where
  "series_mean xs =
     (if xs = [] then None
      else Some (fdiv (double_of_int (int (sum_list xs))) (double_of_int (int (length xs)))))"

definition avg_trips :: "'id lg_dispatch list \<Rightarrow> int \<times> int \<Rightarrow> rat option" where
  "avg_trips dispatch_lg day_range =
     series_mean (map snd (filter (\<lambda>r. fst r \<ge> 1 \<and> fst r \<le> snd day_range) (veh_usage dispatch_lg)))"

definition pct_fleet :: "settings \<Rightarrow> 'id lg_dispatch list \<Rightarrow> int \<times> int \<Rightarrow> rat option" where
  "pct_fleet s dispatch_lg day_range =
     (if MAX_TRIPS s \<noteq> 0
      then map_option (\<lambda>a. fmul (fdiv a (double_of_int (MAX_TRIPS s))) 100)
             (avg_trips dispatch_lg day_range)
      else Some 0)"

definition lg_onhand :: "'id frame \<Rightarrow> int \<Rightarrow> 'id list \<Rightarrow> py_error + rat" where
  "lg_onhand t ed selected_lgs =
     (case frame_loc t ed selected_lgs of Inl e \<Rightarrow> Inl e | Inr cells \<Rightarrow> Inr (nansum cells))"

definition fps_onhand :: "'id fps_stock_row list \<Rightarrow> int \<Rightarrow> rat" where
  "fps_onhand fstock ed =
     series_sum (map fs_Stock_Level_tons (filter (\<lambda>r. fs_Day r = ed) fstock))"

text \<open>
  \<^verbatim>\<open>lgs.set_index("LG_ID").loc[selected_lgs, "Storage_Capacity_tons"]\<close>: the capacity of
  every registry row of each selected godown; KeyError for a godown the registry lacks.
\<close>

fun lg_caps_rows :: "'id lg_reg list \<Rightarrow> 'id list \<Rightarrow> py_error + rat list" where
  "lg_caps_rows lgs [] = Inr []"
| "lg_caps_rows lgs (l # ls) =
     (if filter (\<lambda>r. LG_ID r = l) lgs = [] then Inl KeyError
      else (case lg_caps_rows lgs ls of
              Inl e \<Rightarrow> Inl e
            | Inr vs \<Rightarrow> Inr (map Storage_Capacity_tons (filter (\<lambda>r. LG_ID r = l) lgs) @ vs)))"

definition lg_caps :: "'id lg_reg list \<Rightarrow> 'id list \<Rightarrow> py_error + rat" where
  "lg_caps lgs selected_lgs =
     (case lg_caps_rows lgs selected_lgs of Inl e \<Rightarrow> Inl e | Inr vs \<Rightarrow> Inr (series_sum vs))"

definition pct_lg_filled :: "rat \<Rightarrow> rat \<Rightarrow> rat" where
  "pct_lg_filled onhand caps = (if caps \<noteq> 0 then fmul (fdiv onhand caps) 100 else 0)"

definition fps_zero :: "'id fps_stock_row list \<Rightarrow> int \<Rightarrow> nat" where
  "fps_zero fstock ed =
     length (remdups (map fs_FPS_ID
       (filter (\<lambda>r. fs_Day r = ed \<and> fs_Stock_Level_tons r = 0) fstock)))"

definition fps_risk :: "'id fps_stock_row list \<Rightarrow> int \<Rightarrow> nat" where
  "fps_risk fstock ed =
     length (remdups (map fs_FPS_ID (filter (\<lambda>r. fs_Day r = ed \<and> At_Risk r) fstock)))"

definition dispatched_cum :: "'id lg_dispatch list \<Rightarrow> int \<Rightarrow> rat" where
  "dispatched_cum dispatch_lg ed = query_sum (\<lambda>d. d \<le> ed) (day_totals_lg dispatch_lg)"

definition pct_plan :: "'id lg_dispatch list \<Rightarrow> int \<Rightarrow> rat" where
  "pct_plan dispatch_lg ed =
     (if total_plan dispatch_lg \<noteq> 0
      then fmul (fdiv (dispatched_cum dispatch_lg ed) (total_plan dispatch_lg)) 100 else 0)"

definition remaining_t :: "'id lg_dispatch list \<Rightarrow> int \<Rightarrow> rat" where
  "remaining_t dispatch_lg ed = fsub (total_plan dispatch_lg) (dispatched_cum dispatch_lg ed)"

definition days_rem :: "settings \<Rightarrow> 'id lg_dispatch list \<Rightarrow> int \<Rightarrow> int option" where
  "days_rem s dispatch_lg ed =
     (if DAILY_CAP s \<noteq> 0 then Some \<lceil>fdiv (remaining_t dispatch_lg ed) (DAILY_CAP s)\<rceil>
      else None)"

text \<open>The thirteen values of the Metrics tab, before they are formatted.\<close>

record metrics =
  m_cg_sel :: rat
  m_lg_sel :: rat
  m_avg_daily_cg :: rat
  m_avg_daily_lg :: rat
  m_avg_trips :: "rat option"
  m_pct_fleet :: "rat option"
  m_lg_onhand :: rat
  m_fps_onhand :: rat
  m_pct_lg_filled :: rat
  m_fps_zero :: nat
  m_fps_risk :: nat
  m_pct_plan :: rat
  m_days_rem :: "int option"

text \<open>
  The block of tab 7 in statement order: the two lookups by label (\<open>lg_onhand\<close>, then
  \<open>lg_caps\<close>) are the statements that can raise.
\<close>

definition kpi_rollup ::
  "settings \<Rightarrow> 'id cg_dispatch list \<Rightarrow> 'id lg_dispatch list \<Rightarrow> 'id frame
     \<Rightarrow> 'id fps_stock_row list \<Rightarrow> 'id lg_reg list \<Rightarrow> int \<times> int \<Rightarrow> 'id list
     \<Rightarrow> py_error + metrics" where
  "kpi_rollup s dispatch_cg dispatch_lg t fstock lgs day_range selected_lgs =
     (let ed = end_day s day_range
      in case lg_onhand t ed selected_lgs of
           Inl e \<Rightarrow> Inl e
         | Inr onhand \<Rightarrow>
             (case lg_caps lgs selected_lgs of
                Inl e \<Rightarrow> Inl e
              | Inr caps \<Rightarrow>
                  Inr \<lparr>m_cg_sel = cg_sel dispatch_cg day_range,
                       m_lg_sel = lg_sel dispatch_lg day_range,
                       m_avg_daily_cg = avg_daily_cg dispatch_cg day_range,
                       m_avg_daily_lg = avg_daily_lg dispatch_lg day_range,
                       m_avg_trips = avg_trips dispatch_lg day_range,
                       m_pct_fleet = pct_fleet s dispatch_lg day_range,
                       m_lg_onhand = onhand,
                       m_fps_onhand = fps_onhand fstock ed,
                       m_pct_lg_filled = pct_lg_filled onhand caps,
                       m_fps_zero = fps_zero fstock ed,
                       m_fps_risk = fps_risk fstock ed,
                       m_pct_plan = pct_plan dispatch_lg ed,
                       m_days_rem = days_rem s dispatch_lg ed\<rparr>))"

text \<open>
  The computations of one rerun in script order, from the six sheets and the two
  sidebar inputs: the load-time views (the offset, the godown timeline, the shop
  table), the per-shop projection of tab 5, then the rollup of tab 7. Rendering and
  file exports are not modelled.
\<close>

definition dashboard_metrics ::
  "settings \<Rightarrow> 'id cg_dispatch list \<Rightarrow> 'id lg_dispatch list \<Rightarrow> ('id::linorder) stock_level list
     \<Rightarrow> 'id lg_reg list \<Rightarrow> 'id fps_reg list \<Rightarrow> int \<times> int \<Rightarrow> 'id list
     \<Rightarrow> py_error + metrics" where
  "dashboard_metrics s dispatch_cg dispatch_lg stock_levels lgs fps day_range selected_lgs =
     (case compute_X s dispatch_cg of
        Inl e \<Rightarrow> Inl e
      | Inr x \<Rightarrow>
          (case lg_stock stock_levels of
             Inl e \<Rightarrow> Inl e
           | Inr t \<Rightarrow>
               (case fps_data s stock_levels fps dispatch_lg day_range of
                  Inl e \<Rightarrow> Inl e
                | Inr rows \<Rightarrow>
                    kpi_rollup s dispatch_cg dispatch_lg t (fps_stock stock_levels fps) lgs
                      day_range selected_lgs)))"

section \<open>Notions the statements refer to\<close>

text \<open>
  The snapshots of a shop in the stock sheet for exactly day \<open>d\<close>, those at or before
  day \<open>d\<close>, and the days of the dispatches to a shop after day \<open>d\<close>.
\<close>

definition shop_snapshots :: "'id stock_level list \<Rightarrow> 'id \<Rightarrow> int \<Rightarrow> 'id stock_level list" where
  "shop_snapshots stock_levels fps_id d =
     filter (\<lambda>r. sl_Entity_Type r = ''FPS'' \<and> sl_Entity_ID r = fps_id \<and> sl_Day r = d) stock_levels"

definition shop_snapshots_upto :: "'id stock_level list \<Rightarrow> 'id \<Rightarrow> int \<Rightarrow> 'id stock_level list" where
  "shop_snapshots_upto stock_levels fps_id d =
     filter (\<lambda>r. sl_Entity_Type r = ''FPS'' \<and> sl_Entity_ID r = fps_id \<and> sl_Day r \<le> d) stock_levels"

definition future_receipts :: "'id lg_dispatch list \<Rightarrow> 'id \<Rightarrow> int \<Rightarrow> int list" where
  "future_receipts dispatch_lg fps_id d =
     map lf_Day (filter (\<lambda>r. lf_FPS_ID r = fps_id \<and> lf_Day r > d) dispatch_lg)"

text \<open>
  The days on which dispatches are recorded, ascending, and the exact total of a day's
  dispatches to the shops (the entries of the two day-total tables).
\<close>

definition cg_dispatch_days :: "'id cg_dispatch list \<Rightarrow> int list" where
  "cg_dispatch_days dispatch_cg = sort (remdups (map cg_Dispatch_Day dispatch_cg))"

definition lg_dispatch_days :: "'id lg_dispatch list \<Rightarrow> int list" where
  "lg_dispatch_days dispatch_lg = sort (remdups (map lf_Day dispatch_lg))"

definition lg_daily_total :: "'id lg_dispatch list \<Rightarrow> int \<Rightarrow> rat" where
  "lg_daily_total dispatch_lg k =
     sum_list (map lf_Quantity_tons (filter (\<lambda>r. lf_Day r = k) dispatch_lg))"

text \<open>
  The daily average as the specification words it, in exact arithmetic: the total of
  the selected day range divided by the number of days of that range, zero for an
  empty range.
\<close>

definition spec_window_average :: "(int \<times> rat) list \<Rightarrow> int \<times> int \<Rightarrow> rat" where
  "spec_window_average totals day_range =
     (if snd day_range - fst day_range + 1 > 0
      then sum_list (map snd
             (filter (\<lambda>r. fst day_range \<le> fst r \<and> fst r \<le> snd day_range) totals))
             / of_int (snd day_range - fst day_range + 1)
      else 0)"

section \<open>A small workbook\<close>

text \<open>
  Two days, 20 vehicles of 5 tons making 2 trips a day (a daily capacity of 200 tons);
  350 tons requested from the central godown on day 1; a plan of 6000 tons to one shop,
  4500 of them on day 1; godown 1 with a snapshot on day 1 only, godown 2 with its first
  snapshot on day 2; shop 11 with threshold 10 and a stock of exactly 10 on day 1.
\<close>

definition ex_settings :: settings where
  "ex_settings = \<lparr>Distribution_Days = 2, Vehicle_Capacity_tons = 5,
                   Vehicles_Total = 20, Max_Trips_Per_Vehicle_Per_Day = 2\<rparr>"

definition ex_dispatch_cg :: "nat cg_dispatch list" where
  "ex_dispatch_cg = [\<lparr>cg_Dispatch_Day = 1, cg_LG_ID = 1, cg_Quantity_tons = 350\<rparr>]"

definition ex_dispatch_lg :: "nat lg_dispatch list" where
  "ex_dispatch_lg =
     [\<lparr>lf_Day = 1, lf_LG_ID = 1, lf_FPS_ID = 11, lf_Vehicle_ID = 21, lf_Quantity_tons = 4500\<rparr>,
      \<lparr>lf_Day = 2, lf_LG_ID = 1, lf_FPS_ID = 11, lf_Vehicle_ID = 21, lf_Quantity_tons = 1500\<rparr>]"

definition ex_stock_levels :: "nat stock_level list" where
  "ex_stock_levels =
     [\<lparr>sl_Entity_Type = ''LG'', sl_Entity_ID = 1, sl_Day = 1, sl_Stock_Level_tons = 500\<rparr>,
      \<lparr>sl_Entity_Type = ''LG'', sl_Entity_ID = 2, sl_Day = 2, sl_Stock_Level_tons = 300\<rparr>,
      \<lparr>sl_Entity_Type = ''FPS'', sl_Entity_ID = 11, sl_Day = 1, sl_Stock_Level_tons = 10\<rparr>]"

definition ex_lgs :: "nat lg_reg list" where
  "ex_lgs = [\<lparr>LG_ID = 1, Storage_Capacity_tons = 1000\<rparr>,
             \<lparr>LG_ID = 2, Storage_Capacity_tons = 800\<rparr>]"

definition ex_fps :: "nat fps_reg list" where
  "ex_fps = [\<lparr>FPS_ID = 11, FPS_Name = ''Shop A'', Reorder_Threshold_tons = 10\<rparr>]"

text \<open>
  A fleet of 8 vehicles of 1.6 tons making 2 trips a day, and 102.4 tons requested on
  day 1: the cells 1.6 and 102.4 as the doubles they are read as.
\<close>

definition fx_settings :: settings where
  "fx_settings = \<lparr>Distribution_Days = 2, Vehicle_Capacity_tons = round_double (8 / 5),
                   Vehicles_Total = 8, Max_Trips_Per_Vehicle_Per_Day = 2\<rparr>"

definition fx_dispatch_cg :: "nat cg_dispatch list" where
  "fx_dispatch_cg =
     [\<lparr>cg_Dispatch_Day = 1, cg_LG_ID = 1, cg_Quantity_tons = round_double (512 / 5)\<rparr>]"





text \<open>The godown timeline of the small workbook.\<close>

definition ex_lg_stock :: "nat frame" where
  "ex_lg_stock = \<lparr>frame_index = [1, 2],
                   frame_columns = [(1, [Some 500, Some 500]), (2, [None, Some 300])]\<rparr>"

section \<open>Group-by sums\<close>

lemma sum_list_by_key:
  assumes "finite K" and "key ` set xs \<subseteq> K"
  shows "(\<Sum>k\<in>K. sum_list (map val (filter (\<lambda>r. key r = k) xs))) = (sum_list (map val xs) :: rat)"
  using assms
proof (induction xs)
  case Nil
  then show ?case by simp
next
  case (Cons x xs)
  have "(\<Sum>k\<in>K. sum_list (map val (filter (\<lambda>r. key r = k) (x # xs))))
      = (\<Sum>k\<in>K. (if key x = k then val x else 0) + sum_list (map val (filter (\<lambda>r. key r = k) xs)))"
    by (rule sum.cong) auto
  also have "\<dots> = (\<Sum>k\<in>K. if key x = k then val x else 0) + sum_list (map val xs)"
    using Cons by (simp add: sum.distrib)
  also have "(\<Sum>k\<in>K. if key x = k then val x else 0) = val x"
    using Cons.prems by (simp add: sum.delta')
  finally show ?case by simp
qed

text \<open>The rows of a day-total table that pass a test on the day.\<close>

lemma groupby_sum_filter:
  "filter (\<lambda>r. P (fst r)) (groupby_sum key val rows) =
     map (\<lambda>k. (k, sum_list (map val (filter (\<lambda>r. key r = k) rows))))
       (filter P (sort (remdups (map key rows))))"
  by (simp add: groupby_sum_def filter_map comp_def)

text \<open>
  Adding, exactly, the totals of the days that pass a test is adding the raw rows of
  those days.
\<close>

lemma groupby_sum_window:
  "sum_list (map snd (filter (\<lambda>r. P (fst r)) (groupby_sum key val rows))) =
     sum_list (map val (filter (\<lambda>r. P (key r)) rows))"
proof -
  let ?S = "\<lambda>k. sum_list (map val (filter (\<lambda>r. key r = k) rows))"
  let ?ks = "sort (remdups (map key rows))"
  let ?rows' = "filter (\<lambda>r. P (key r)) rows"
  have "sum_list (map snd (filter (\<lambda>r. P (fst r)) (groupby_sum key val rows)))
      = sum_list (map ?S (filter P ?ks))"
    by (simp add: groupby_sum_filter comp_def)
  also have "\<dots> = sum ?S (set (filter P ?ks))"
    by (rule sum_list_distinct_conv_sum_set) simp
  also have "\<dots> = (\<Sum>k\<in>set (filter P ?ks). sum_list (map val (filter (\<lambda>r. key r = k) ?rows')))"
  proof (rule sum.cong)
    fix k assume "k \<in> set (filter P ?ks)"
    then have "P k" by simp
    then have "filter (\<lambda>r. key r = k) ?rows' = filter (\<lambda>r. key r = k) rows"
      by (induction rows) auto
    then show "?S k = sum_list (map val (filter (\<lambda>r. key r = k) ?rows'))" by simp
  qed simp
  also have "\<dots> = sum_list (map val ?rows')"
    by (rule sum_list_by_key) auto
  finally show ?thesis .
qed

text \<open>
  C7. The per-day totals of the dispatches from the central godown, added over all the
  days that occur, give the sum of the quantities of all the raw dispatch records: the
  group-by loses nothing.
\<close>

theorem day_totals_cg_loss_free:
  "sum_list (map snd (day_totals_cg dispatch_cg)) = sum_list (map cg_Quantity_tons dispatch_cg)"
  using groupby_sum_window[of "\<lambda>_. True" cg_Dispatch_Day cg_Quantity_tons dispatch_cg]
  by (simp add: day_totals_cg_def)

section \<open>The pre-dispatch offset\<close>





text \<open>
  C1. The offset is meant to be the smallest non-negative integer that keeps the
  cumulative demand through every day \<open>d\<close> at or below \<open>DAILY_CAP * (d + X)\<close>. With a
  capacity of 16 trips of 1.6 tons and 102.4 tons requested on day 1, an offset of 3
  days does so, but the loop's quotient is rounded to the double just above 3 and the
  ceiling makes the offset 4.
\<close>

theorem lead_time_rounding:
  "1 \<le> DAYS fx_settings \<and> 0 < DAILY_CAP fx_settings
     \<and> over_of (DAILY_CAP fx_settings) (round_double (512 / 5)) 1 = 3 + 1 / 2 ^ 51
     \<and> compute_X fx_settings fx_dispatch_cg = Inr 4
     \<and> within_capacity fx_settings fx_dispatch_cg 3"
  by code_simp



section \<open>The godown stock timeline\<close>

lemma ffill_col_idem: "ffill_col p (ffill_col p cs) = ffill_col p cs"
proof (induction p cs rule: ffill_col.induct)
  case (2 prev cs)
  then show ?case by (cases prev) auto
qed auto

lemma ffill_idem: "ffill (ffill t) = ffill t"
  by (simp add: ffill_def comp_def ffill_col_idem)

lemma length_ffill_col: "length (ffill_col p cs) = length cs"
  by (induction p cs rule: ffill_col.induct) auto

lemma ffill_col_source:
  assumes "sorted ds" and "distinct ds"
    and "map_of (zip ds (ffill_col a (map f ds))) d = Some (Some v)"
  shows "(a = Some v \<and> (\<forall>d'\<in>set ds. d' \<le> d \<longrightarrow> f d' = None))
       \<or> (\<exists>d'\<in>set ds. d' \<le> d \<and> f d' = Some v
             \<and> (\<forall>d''\<in>set ds. d' < d'' \<and> d'' \<le> d \<longrightarrow> f d'' = None))"
  using assms
proof (induction ds arbitrary: a)
  case Nil
  then show ?case by simp
next
  case (Cons x xs)
  have lt: "x < y" if "y \<in> set xs" for y
    using Cons.prems(1,2) that by (auto simp: less_le)
  show ?case
  proof (cases "d = x")
    case True
    have "\<not> y \<le> x" if "y \<in> set xs" for y
      using lt[OF that] by simp
    then show ?thesis
      using Cons.prems(3) True by (cases "f x") auto
  next
    case False
    define a' where "a' = (case f x of None \<Rightarrow> a | Some w \<Rightarrow> Some w)"
    have step: "map_of (zip xs (ffill_col a' (map f xs))) d = Some (Some v)"
      using Cons.prems(3) False by (cases "f x") (auto simp: a'_def)
    then have din: "d \<in> set xs"
      by (meson map_of_SomeD set_zip_leftD)
    from Cons.IH[OF _ _ step] Cons.prems(1,2)
    consider (init) "a' = Some v" "\<forall>d'\<in>set xs. d' \<le> d \<longrightarrow> f d' = None"
      | (later) d' where "d' \<in> set xs" "d' \<le> d" "f d' = Some v"
          "\<forall>d''\<in>set xs. d' < d'' \<and> d'' \<le> d \<longrightarrow> f d'' = None"
      by auto
    then show ?thesis
    proof cases
      case init
      show ?thesis
      proof (cases "f x")
        case None
        then show ?thesis using init by (auto simp: a'_def)
      next
        case (Some w)
        then have "f x = Some v" using init by (simp add: a'_def)
        moreover have "x \<le> d" using lt[OF din] by simp
        ultimately show ?thesis using init(2) by auto
      qed
    next
      case later
      have "x < d'" using lt later(1) by simp
      then show ?thesis using later by auto
    qed
  qed
qed


lemma lg_stock_frame:
  assumes "lg_stock sl = Inr t"
  shows "frame_index t = sort (remdups (map sl_Day (filter (\<lambda>r. sl_Entity_Type r = ''LG'') sl)))"
    and "frame_columns t =
      map (\<lambda>c. (c, ffill_col None
             (map (\<lambda>d. pivot_cell (filter (\<lambda>r. sl_Entity_Type r = ''LG'') sl) d c)
                (sort (remdups (map sl_Day (filter (\<lambda>r. sl_Entity_Type r = ''LG'') sl)))))))
        (sort (remdups (map sl_Entity_ID (filter (\<lambda>r. sl_Entity_Type r = ''LG'') sl))))"
  using assms
  by (auto simp: lg_stock_def pivot_def ffill_def Let_def comp_def split: if_splits sum.splits)

lemma lg_stock_cell:
  assumes "lg_stock sl = Inr t" and "frame_at t d l = Inr c"
  shows "map_of (zip (frame_index t)
            (ffill_col None (map (\<lambda>d. pivot_cell (filter (\<lambda>r. sl_Entity_Type r = ''LG'') sl) d l)
               (frame_index t)))) d = Some c"
proof -
  let ?rows = "filter (\<lambda>r. sl_Entity_Type r = ''LG'') sl"
  let ?col = "\<lambda>c. ffill_col None (map (\<lambda>d. pivot_cell ?rows d c) (frame_index t))"
  have "frame_columns t = map (\<lambda>c. (c, ?col c)) (sort (remdups (map sl_Entity_ID ?rows)))"
    using lg_stock_frame[OF assms(1)] by simp
  then have "map_of (frame_columns t) l =
      (if l \<in> set (map sl_Entity_ID ?rows) then Some (?col l) else None)"
    by (simp add: map_of_map_restrict restrict_map_def)
  then show ?thesis
    using assms(2) by (auto simp: frame_at_def split: if_splits option.splits)
qed

lemma lg_stock_cell_defined:
  assumes "lg_stock sl = Inr t" and "d \<in> set (frame_index t)"
    and "s \<in> set sl" and "sl_Entity_Type s = ''LG''"
  shows "\<exists>c. frame_at t d (sl_Entity_ID s) = Inr c"
proof -
  let ?rows = "filter (\<lambda>r. sl_Entity_Type r = ''LG'') sl"
  let ?col = "\<lambda>c. ffill_col None (map (\<lambda>d. pivot_cell ?rows d c) (frame_index t))"
  have "frame_columns t = map (\<lambda>c. (c, ?col c)) (sort (remdups (map sl_Entity_ID ?rows)))"
    using lg_stock_frame[OF assms(1)] by simp
  then have "map_of (frame_columns t) (sl_Entity_ID s) =
      (if sl_Entity_ID s \<in> set (map sl_Entity_ID ?rows) then Some (?col (sl_Entity_ID s)) else None)"
    by (simp add: map_of_map_restrict restrict_map_def)
  moreover have "sl_Entity_ID s \<in> set (map sl_Entity_ID ?rows)"
    using assms(3,4) by auto
  moreover have "length (frame_index t) = length (?col (sl_Entity_ID s))"
    by (simp add: length_ffill_col)
  then have "map_of (zip (frame_index t) (?col (sl_Entity_ID s))) d \<noteq> None"
    using assms(2) by (simp add: map_of_zip_is_None)
  ultimately show ?thesis
    by (auto simp: frame_at_def)
qed

lemma pivot_cell_Some:
  "pivot_cell rows d l = Some v \<Longrightarrow>
     \<exists>r\<in>set rows. sl_Day r = d \<and> sl_Entity_ID r = l \<and> sl_Stock_Level_tons r = v"
  by (auto simp: pivot_cell_def find_Some_iff)

lemma pivot_cell_None:
  "pivot_cell rows d l = None \<Longrightarrow> r \<in> set rows \<Longrightarrow> sl_Entity_ID r = l \<Longrightarrow> sl_Day r \<noteq> d"
  by (auto simp: pivot_cell_def find_None_iff)

lemma lg_stock_source:
  assumes "lg_stock sl = Inr t" and "frame_at t d l = Inr (Some v)"
  shows "\<exists>s\<in>set sl. sl_Entity_Type s = ''LG'' \<and> sl_Entity_ID s = l \<and> sl_Day s \<le> d
           \<and> sl_Stock_Level_tons s = v
           \<and> (\<forall>s'\<in>set sl. sl_Entity_Type s' = ''LG'' \<and> sl_Entity_ID s' = l \<and> sl_Day s' \<le> d
                 \<longrightarrow> sl_Day s' \<le> sl_Day s)"
proof -
  let ?rows = "filter (\<lambda>r. sl_Entity_Type r = ''LG'') sl"
  let ?f = "\<lambda>d. pivot_cell ?rows d l"
  have idx: "frame_index t = sort (remdups (map sl_Day ?rows))"
    using lg_stock_frame[OF assms(1)] by simp
  then have "sorted (frame_index t)" "distinct (frame_index t)" by simp_all
  from ffill_col_source[OF this lg_stock_cell[OF assms]]
  obtain d' where d': "d' \<in> set (frame_index t)" "d' \<le> d" "?f d' = Some v"
    "\<forall>d''\<in>set (frame_index t). d' < d'' \<and> d'' \<le> d \<longrightarrow> ?f d'' = None"
    by auto
  from pivot_cell_Some[OF d'(3)]
  obtain s where s: "s \<in> set ?rows" "sl_Day s = d'" "sl_Entity_ID s = l" "sl_Stock_Level_tons s = v"
    by auto
  have "sl_Day s' \<le> sl_Day s"
    if "s' \<in> set sl" "sl_Entity_Type s' = ''LG''" "sl_Entity_ID s' = l" "sl_Day s' \<le> d" for s'
  proof (rule ccontr)
    assume "\<not> sl_Day s' \<le> sl_Day s"
    then have "d' < sl_Day s'" using s(2) by simp
    moreover have "s' \<in> set ?rows" using that by simp
    then have "sl_Day s' \<in> set (frame_index t)" unfolding idx by auto
    ultimately have "?f (sl_Day s') = None" using d'(4) that(4) by blast
    from pivot_cell_None[OF this \<open>s' \<in> set ?rows\<close> that(3)] show False by simp
  qed
  then show ?thesis using s d'(2) by auto
qed


lemma first_snapshot_dayD:
  assumes "first_snapshot_day sl l = Some f"
  shows "\<exists>s\<in>set sl. sl_Entity_Type s = ''LG'' \<and> sl_Entity_ID s = l"
    and "\<And>s. s \<in> set sl \<Longrightarrow> sl_Entity_Type s = ''LG'' \<Longrightarrow> sl_Entity_ID s = l \<Longrightarrow> f \<le> sl_Day s"
proof -
  let ?rows = "filter (\<lambda>r. sl_Entity_Type r = ''LG'' \<and> sl_Entity_ID r = l) sl"
  from assms obtain x xs where ds: "map sl_Day ?rows = x # xs" and f: "f = fold min xs x"
    by (auto simp: first_snapshot_day_def split: list.splits)
  then have "?rows \<noteq> []" by auto
  then obtain s where "s \<in> set ?rows" by (cases ?rows) auto
  then show "\<exists>s\<in>set sl. sl_Entity_Type s = ''LG'' \<and> sl_Entity_ID s = l" by auto
  have fmin: "f = Min (set (map sl_Day ?rows))"
    unfolding ds f by (rule Min.set_eq_fold[symmetric])
  fix s assume "s \<in> set sl" "sl_Entity_Type s = ''LG''" "sl_Entity_ID s = l"
  then have "sl_Day s \<in> set (map sl_Day ?rows)" by auto
  then show "f \<le> sl_Day s" unfolding fmin by (intro Min_le) auto
qed

lemma lg_onhand_skip:
  assumes "frame_at t d l = Inr None"
  shows "lg_onhand t d sel = lg_onhand t d (removeAll l sel)"
proof -
  define total where "total = (\<lambda>acc r. case r of Inl e \<Rightarrow> Inl e
                                 | Inr cs \<Rightarrow> (Inr (nansum_from acc cs) :: py_error + rat))"
  have step: "total acc (frame_loc t d (a # ks)) =
        (case frame_at t d a of
           Inl e \<Rightarrow> Inl e
         | Inr c \<Rightarrow> total (case c of None \<Rightarrow> acc | Some v \<Rightarrow> fadd acc v) (frame_loc t d ks))"
    for acc a ks
    by (auto simp: total_def split: sum.splits option.splits)
  have "total acc (frame_loc t d sel) = total acc (frame_loc t d (removeAll l sel))" for acc
  proof (induction sel arbitrary: acc)
    case Nil
    show ?case by simp
  next
    case (Cons a ls)
    show ?case
    proof (cases "a = l")
      case True
      have "total acc (frame_loc t d (a # ls)) = total acc (frame_loc t d ls)"
        unfolding step True assms by simp
      also have "\<dots> = total acc (frame_loc t d (removeAll l ls))"
        by (rule Cons.IH)
      finally show ?thesis using True by simp
    next
      case False
      then have rm: "removeAll l (a # ls) = a # removeAll l ls" by simp
      have "total acc (frame_loc t d (a # ls)) =
          (case frame_at t d a of
             Inl e \<Rightarrow> Inl e
           | Inr c \<Rightarrow> total (case c of None \<Rightarrow> acc | Some v \<Rightarrow> fadd acc v)
                        (frame_loc t d ls))"
        by (rule step)
      also have "\<dots> =
          (case frame_at t d a of
             Inl e \<Rightarrow> Inl e
           | Inr c \<Rightarrow> total (case c of None \<Rightarrow> acc | Some v \<Rightarrow> fadd acc v)
                        (frame_loc t d (removeAll l ls)))"
        by (simp only: Cons.IH)
      also have "\<dots> = total acc (frame_loc t d (a # removeAll l ls))"
        by (rule step[symmetric])
      finally show ?thesis by (simp only: rm)
    qed
  qed
  moreover have "lg_onhand t d ks = total 0 (frame_loc t d ks)" for ks
    by (simp add: lg_onhand_def nansum_def total_def split: sum.splits)
  ultimately show ?thesis by simp
qed

text \<open>
  C4. Forward-filling is idempotent: filling a table twice gives the table filled once,
  so filling the godown timeline again leaves it unchanged. Every value the timeline
  shows for day \<open>d\<close> and godown \<open>l\<close> is the value of a snapshot of \<open>l\<close> on a day at or
  before \<open>d\<close> (never of a later day), and of the latest such snapshot.
\<close>

theorem ffill_idempotent_no_future:
  "ffill (ffill u) = ffill u \<and>
   (lg_stock sl = Inr t \<longrightarrow>
      ffill t = t \<and>
      (\<forall>d l v. frame_at t d l = Inr (Some v) \<longrightarrow>
         (\<exists>s\<in>set sl. sl_Entity_Type s = ''LG'' \<and> sl_Entity_ID s = l \<and> sl_Day s \<le> d
            \<and> sl_Stock_Level_tons s = v
            \<and> (\<forall>s'\<in>set sl. sl_Entity_Type s' = ''LG'' \<and> sl_Entity_ID s' = l \<and> sl_Day s' \<le> d
                  \<longrightarrow> sl_Day s' \<le> sl_Day s))))"
proof (intro conjI impI allI)
  show "ffill (ffill u) = ffill u" by (rule ffill_idem)
next
  assume "lg_stock sl = Inr t"
  then obtain p where "t = ffill p"
    by (auto simp: lg_stock_def split: sum.splits)
  then show "ffill t = t" by (simp add: ffill_idem)
next
  fix d l v
  assume "lg_stock sl = Inr t" and "frame_at t d l = Inr (Some v)"
  then show "\<exists>s\<in>set sl. sl_Entity_Type s = ''LG'' \<and> sl_Entity_ID s = l \<and> sl_Day s \<le> d
            \<and> sl_Stock_Level_tons s = v
            \<and> (\<forall>s'\<in>set sl. sl_Entity_Type s' = ''LG'' \<and> sl_Entity_ID s' = l \<and> sl_Day s' \<le> d
                  \<longrightarrow> sl_Day s' \<le> sl_Day s)"
    by (rule lg_stock_source)
qed

theorem ffill_idempotent_no_future_witness:
  "lg_stock ex_stock_levels = Inr ex_lg_stock \<and> ffill ex_lg_stock = ex_lg_stock
     \<and> frame_at ex_lg_stock 2 1 = Inr (Some 500)
     \<and> (\<exists>s\<in>set ex_stock_levels. sl_Entity_Type s = ''LG'' \<and> sl_Entity_ID s = 1
           \<and> sl_Day s \<le> 2 \<and> sl_Stock_Level_tons s = 500)"
proof -
  have t: "lg_stock ex_stock_levels = Inr ex_lg_stock" by code_simp
  have c: "frame_at ex_lg_stock 2 1 = Inr (Some 500)" by code_simp
  from ffill_idempotent_no_future[of ex_lg_stock ex_stock_levels ex_lg_stock] t c
  have "ffill ex_lg_stock = ex_lg_stock"
    and "\<exists>s\<in>set ex_stock_levels. sl_Entity_Type s = ''LG'' \<and> sl_Entity_ID s = 1
           \<and> sl_Day s \<le> 2 \<and> sl_Stock_Level_tons s = 500"
    by blast+
  then show ?thesis using t c by simp
qed

text \<open>
  C10. For a godown whose earliest snapshot is on day \<open>f\<close>, the timeline's cell for
  every day of the index strictly before \<open>f\<close> is still missing after the forward-fill
  (no value, and no zero, is put there), and the on-hand sum over a selection passes
  that cell over: it is the sum over the selection without that godown.
\<close>

theorem cells_before_first_snapshot_missing:
  assumes "lg_stock sl = Inr t" and "first_snapshot_day sl l = Some f"
    and "d \<in> set (frame_index t)" and "d < f"
  shows "frame_at t d l = Inr None
       \<and> lg_onhand t d selected_lgs = lg_onhand t d (removeAll l selected_lgs)"
proof -
  from first_snapshot_dayD(1)[OF assms(2)]
  obtain s where s: "s \<in> set sl" "sl_Entity_Type s = ''LG''" "sl_Entity_ID s = l" by auto
  from lg_stock_cell_defined[OF assms(1,3) s(1,2)] s(3)
  obtain c where c: "frame_at t d l = Inr c" by auto
  have "c = None"
  proof (cases c)
    case (Some v)
    from lg_stock_source[OF assms(1) c[unfolded Some]]
    obtain s' where "s' \<in> set sl" "sl_Entity_Type s' = ''LG''" "sl_Entity_ID s' = l" "sl_Day s' \<le> d"
      by auto
    with first_snapshot_dayD(2)[OF assms(2)] assms(4) show ?thesis by fastforce
  qed simp
  with c have missing: "frame_at t d l = Inr None" by simp
  from lg_onhand_skip[OF missing, of selected_lgs] missing show ?thesis by simp
qed

theorem cells_before_first_snapshot_missing_witness:
  "lg_stock ex_stock_levels = Inr ex_lg_stock \<and> first_snapshot_day ex_stock_levels 2 = Some 2
     \<and> 1 \<in> set (frame_index ex_lg_stock) \<and> (1::int) < 2
     \<and> frame_at ex_lg_stock 1 2 = Inr None
     \<and> lg_onhand ex_lg_stock 1 [1, 2] = Inr 500"
proof -
  have t: "lg_stock ex_stock_levels = Inr ex_lg_stock" by code_simp
  have f: "first_snapshot_day ex_stock_levels 2 = Some 2" by code_simp
  have d: "1 \<in> set (frame_index ex_lg_stock)" by code_simp
  have r: "lg_onhand ex_lg_stock 1 (removeAll 2 [1, 2]) = Inr 500" by code_simp
  from cells_before_first_snapshot_missing[OF t f d, of "[1, 2]"] r
  have "frame_at ex_lg_stock 1 2 = Inr None" and "lg_onhand ex_lg_stock 1 [1, 2] = Inr 500"
    by simp_all
  then show ?thesis using t f d by simp
qed

section \<open>KPI rollup and the at-risk flag\<close>

lemma day_totals_lg_entries:
  "day_totals_lg dispatch_lg =
     map (\<lambda>k. (k, lg_daily_total dispatch_lg k)) (lg_dispatch_days dispatch_lg)"
  by (simp add: day_totals_lg_def groupby_sum_def lg_daily_total_def lg_dispatch_days_def)

lemma day_totals_cg_entries:
  "day_totals_cg dispatch_cg =
     map (\<lambda>k. (k, daily_demand dispatch_cg k)) (cg_dispatch_days dispatch_cg)"
  by (simp add: day_totals_cg_def groupby_sum_def daily_demand_def cg_dispatch_days_def)



lemma cg_sel_days:
  "cg_sel dispatch_cg (lo, hi) =
     series_sum (map (daily_demand dispatch_cg)
       (filter (\<lambda>k. lo \<le> k \<and> k \<le> hi) (cg_dispatch_days dispatch_cg)))"
  by (simp add: cg_sel_def query_sum_def day_totals_cg_entries filter_map comp_def)

lemma lg_sel_days:
  "lg_sel dispatch_lg (lo, hi) =
     series_sum (map (lg_daily_total dispatch_lg)
       (filter (\<lambda>k. 1 \<le> k \<and> k \<le> hi) (lg_dispatch_days dispatch_lg)))"
  by (simp add: lg_sel_def query_sum_def day_totals_lg_entries filter_map comp_def)

lemma kpi_rollup_fields:
  assumes "kpi_rollup s dispatch_cg dispatch_lg t fstock lgs day_range selected_lgs = Inr m"
  shows "m_days_rem m = days_rem s dispatch_lg (end_day s day_range)"
    and "m_avg_daily_cg m = avg_daily_cg dispatch_cg day_range"
    and "m_avg_daily_lg m = avg_daily_lg dispatch_lg day_range"
  using assms by (auto simp: kpi_rollup_def Let_def split: sum.splits)





text \<open>
  C9, as the code has it by design. Let \<open>n = hi - max lo 1 + 1\<close>, the number of selected
  days from day 1 on. The average from the central godown is the total of the day
  totals of days \<open>lo..hi\<close> over \<open>n\<close>. For a range that starts at or before day 1, the
  average to the shops is the total of the day totals of the selected days from day 1
  on over \<open>n\<close>. Both are 0 when \<open>n\<close> is not positive, and they are the values the
  rollup reports. (Totals and quotients are rounded to doubles. Nothing is said of
  the average to the shops for a range that starts after day 1.)
\<close>

theorem avg_daily_kpi:
  "avg_daily_cg dispatch_cg (lo, hi) =
     (if 0 < hi - max lo 1 + 1
      then fdiv (series_sum (map (daily_demand dispatch_cg)
                   (filter (\<lambda>k. lo \<le> k \<and> k \<le> hi) (cg_dispatch_days dispatch_cg))))
             (double_of_int (hi - max lo 1 + 1))
      else 0)
   \<and> (lo \<le> 1 \<longrightarrow>
        avg_daily_lg dispatch_lg (lo, hi) =
          (if 0 < hi - max lo 1 + 1
           then fdiv (series_sum (map (lg_daily_total dispatch_lg)
                        (filter (\<lambda>k. max lo 1 \<le> k \<and> k \<le> hi) (lg_dispatch_days dispatch_lg))))
                  (double_of_int (hi - max lo 1 + 1))
           else 0))
   \<and> (hi - max lo 1 + 1 \<le> 0 \<longrightarrow>
        avg_daily_cg dispatch_cg (lo, hi) = 0 \<and> avg_daily_lg dispatch_lg (lo, hi) = 0)
   \<and> (kpi_rollup s dispatch_cg dispatch_lg t fstock lgs (lo, hi) selected_lgs = Inr m \<longrightarrow>
        m_avg_daily_cg m = avg_daily_cg dispatch_cg (lo, hi)
        \<and> m_avg_daily_lg m = avg_daily_lg dispatch_lg (lo, hi))"
proof (intro conjI impI)
  show "avg_daily_cg dispatch_cg (lo, hi) =
     (if 0 < hi - max lo 1 + 1
      then fdiv (series_sum (map (daily_demand dispatch_cg)
                   (filter (\<lambda>k. lo \<le> k \<and> k \<le> hi) (cg_dispatch_days dispatch_cg))))
             (double_of_int (hi - max lo 1 + 1))
      else 0)"
    by (simp add: avg_daily_cg_def sel_days_def cg_sel_days)
next
  assume "lo \<le> 1"
  then have "max lo 1 = 1" by simp
  then show "avg_daily_lg dispatch_lg (lo, hi) =
          (if 0 < hi - max lo 1 + 1
           then fdiv (series_sum (map (lg_daily_total dispatch_lg)
                        (filter (\<lambda>k. max lo 1 \<le> k \<and> k \<le> hi) (lg_dispatch_days dispatch_lg))))
                  (double_of_int (hi - max lo 1 + 1))
           else 0)"
    by (simp add: avg_daily_lg_def sel_days_def lg_sel_days)
next
  assume "hi - max lo 1 + 1 \<le> 0"
  then have "\<not> sel_days (lo, hi) > 0"
    unfolding sel_days_def fst_conv snd_conv by linarith
  then show "avg_daily_cg dispatch_cg (lo, hi) = 0"
    and "avg_daily_lg dispatch_lg (lo, hi) = 0"
    by (simp_all add: avg_daily_cg_def avg_daily_lg_def)
next
  assume "kpi_rollup s dispatch_cg dispatch_lg t fstock lgs (lo, hi) selected_lgs = Inr m"
  from kpi_rollup_fields(2,3)[OF this]
  show "m_avg_daily_cg m = avg_daily_cg dispatch_cg (lo, hi)"
    and "m_avg_daily_lg m = avg_daily_lg dispatch_lg (lo, hi)"
    by simp_all
qed

theorem avg_daily_kpi_witness:
  "avg_daily_cg ex_dispatch_cg (0, 2) = 175
   \<and> (0::int) \<le> 1 \<and> avg_daily_lg ex_dispatch_lg (0, 2) = 3000
   \<and> (0::int) - max 0 1 + 1 \<le> 0
   \<and> avg_daily_cg ex_dispatch_cg (0, 0) = 0 \<and> avg_daily_lg ex_dispatch_lg (0, 0) = 0
   \<and> \<not> isl (kpi_rollup ex_settings ex_dispatch_cg ex_dispatch_lg ex_lg_stock
             (fps_stock ex_stock_levels ex_fps) ex_lgs (0, 2) [1, 2])
   \<and> m_avg_daily_cg (projr (kpi_rollup ex_settings ex_dispatch_cg ex_dispatch_lg ex_lg_stock
             (fps_stock ex_stock_levels ex_fps) ex_lgs (0, 2) [1, 2])) = 175
   \<and> m_avg_daily_lg (projr (kpi_rollup ex_settings ex_dispatch_cg ex_dispatch_lg ex_lg_stock
             (fps_stock ex_stock_levels ex_fps) ex_lgs (0, 2) [1, 2])) = 3000"
proof -
  let ?k = "kpi_rollup ex_settings ex_dispatch_cg ex_dispatch_lg ex_lg_stock
             (fps_stock ex_stock_levels ex_fps) ex_lgs (0, 2) [1, 2]"
  have r: "\<not> isl ?k" by code_simp
  then have k: "?k = Inr (projr ?k)" by (cases ?k) auto
  have cg: "(if (0::int) < 2 - max 0 1 + 1
      then fdiv (series_sum (map (daily_demand ex_dispatch_cg)
                   (filter (\<lambda>k. 0 \<le> k \<and> k \<le> 2) (cg_dispatch_days ex_dispatch_cg))))
             (double_of_int (2 - max 0 1 + 1))
      else 0) = 175"
    by code_simp
  have lg: "(if (0::int) < 2 - max 0 1 + 1
           then fdiv (series_sum (map (lg_daily_total ex_dispatch_lg)
                        (filter (\<lambda>k. max 0 1 \<le> k \<and> k \<le> 2) (lg_dispatch_days ex_dispatch_lg))))
                  (double_of_int (2 - max 0 1 + 1))
           else 0) = 3000"
    by code_simp
  have le: "(0::int) \<le> 1" and empty: "(0::int) - max 0 1 + 1 \<le> 0" by simp_all
  note w2 = avg_daily_kpi[of ex_dispatch_cg 0 2 ex_dispatch_lg ex_settings ex_lg_stock
      "fps_stock ex_stock_levels ex_fps" ex_lgs "[1, 2]" "projr ?k"]
  note w0 = avg_daily_kpi[of ex_dispatch_cg 0 0 ex_dispatch_lg ex_settings ex_lg_stock
      "fps_stock ex_stock_levels ex_fps" ex_lgs "[1, 2]" "projr ?k"]
  from w2 cg have a: "avg_daily_cg ex_dispatch_cg (0, 2) = 175" by simp
  from w2 le lg have b: "avg_daily_lg ex_dispatch_lg (0, 2) = 3000" by simp
  from w0 empty have c: "avg_daily_cg ex_dispatch_cg (0, 0) = 0"
    and d: "avg_daily_lg ex_dispatch_lg (0, 0) = 0" by simp_all
  from w2 k a b have e: "m_avg_daily_cg (projr ?k) = 175" and f: "m_avg_daily_lg (projr ?k) = 3000"
    by simp_all
  from a b c d e f r show ?thesis by simp
qed

text \<open>
  The specification divides the total of the selected range by the number of days of
  that range. For the range \<open>(0, 2)\<close> of three days the average from the central godown
  is 350/2: the day before day 1 is not counted.
\<close>

theorem avg_daily_counterexample:
  "avg_daily_cg ex_dispatch_cg (0, 2) = 175
   \<and> spec_window_average (day_totals_cg ex_dispatch_cg) (0, 2) = 350 / 3"
  by code_simp

text \<open>
  The total to the shops always starts at day 1 (\<^verbatim>\<open>Day>=1\<close>) while the divisor counts
  the days from \<open>max lo 1\<close>: for the range \<open>(2, 2)\<close> the average to the shops is the
  6000 tons of days 1 and 2 over one day, where day 2 alone has 1500.
\<close>

lemma avg_daily_lg_counts_earlier_days:
  "avg_daily_lg ex_dispatch_lg (2, 2) = 6000
   \<and> spec_window_average (day_totals_lg ex_dispatch_lg) (2, 2) = 1500"
  by code_simp

text \<open>
  C6. The slider of the small workbook starts at day 0, so the range \<open>(0, 0)\<close> can be
  selected: it selects zero days. The rollup then looks the end day 0 up in the godown
  timeline, whose days are 1 and 2, and stops with KeyError, with every godown selected
  and with none.
\<close>

theorem empty_day_selection_raises:
  "day_range_slider ex_settings ex_dispatch_cg =
     Inr \<lparr>min_value = 0, max_value = 2, initial_value = (0, 2)\<rparr>
   \<and> sel_days (0, 0) = 0
   \<and> lg_stock ex_stock_levels = Inr ex_lg_stock
   \<and> dashboard_metrics ex_settings ex_dispatch_cg ex_dispatch_lg ex_stock_levels
        ex_lgs ex_fps (0, 0) [1, 2] = Inl KeyError
   \<and> dashboard_metrics ex_settings ex_dispatch_cg ex_dispatch_lg ex_stock_levels
        ex_lgs ex_fps (0, 0) [] = Inl KeyError"
  by code_simp

text \<open>
  C8. Every row of the joined shop table is flagged at risk exactly when its stock level
  is at most its reorder threshold, and every shop snapshot with a registry row of the
  same id has such a row, flagged exactly when the snapshot's stock is at most the
  registry's threshold. The comparison is inclusive.
\<close>

theorem at_risk_iff:
  "(\<forall>r\<in>set (fps_stock stock_levels fps).
       At_Risk r = (fs_Stock_Level_tons r \<le> fs_Reorder_Threshold_tons r))
   \<and> (\<forall>s\<in>set stock_levels. \<forall>f\<in>set fps.
         sl_Entity_Type s = ''FPS'' \<and> sl_Entity_ID s = FPS_ID f \<longrightarrow>
           (\<exists>r\<in>set (fps_stock stock_levels fps).
              fs_Day r = sl_Day s \<and> fs_FPS_ID r = FPS_ID f
              \<and> fs_Stock_Level_tons r = sl_Stock_Level_tons s
              \<and> fs_Reorder_Threshold_tons r = Reorder_Threshold_tons f
              \<and> At_Risk r = (sl_Stock_Level_tons s \<le> Reorder_Threshold_tons f)))"
proof (intro conjI ballI impI)
  fix r assume "r \<in> set (fps_stock stock_levels fps)"
  then show "At_Risk r = (fs_Stock_Level_tons r \<le> fs_Reorder_Threshold_tons r)"
    by (auto simp: fps_stock_def fps_stock_join_def)
next
  fix s f
  assume "s \<in> set stock_levels" "f \<in> set fps"
    and "sl_Entity_Type s = ''FPS'' \<and> sl_Entity_ID s = FPS_ID f"
  then have "fps_stock_join s f \<in> set (fps_stock stock_levels fps)"
    by (auto simp: fps_stock_def)
  then show "\<exists>r\<in>set (fps_stock stock_levels fps).
              fs_Day r = sl_Day s \<and> fs_FPS_ID r = FPS_ID f
              \<and> fs_Stock_Level_tons r = sl_Stock_Level_tons s
              \<and> fs_Reorder_Threshold_tons r = Reorder_Threshold_tons f
              \<and> At_Risk r = (sl_Stock_Level_tons s \<le> Reorder_Threshold_tons f)"
    by (rule bexI[rotated]) (simp add: fps_stock_join_def)
qed

theorem at_risk_iff_witness:
  "fps_stock ex_stock_levels ex_fps =
     [\<lparr>fs_Day = 1, fs_FPS_ID = 11, fs_Stock_Level_tons = 10,
       fs_Reorder_Threshold_tons = 10, At_Risk = True\<rparr>]"
proof -
  obtain r where r: "fps_stock ex_stock_levels ex_fps = [r]"
    and f: "fs_Day r = 1" "fs_FPS_ID r = 11" "fs_Stock_Level_tons r = 10"
      "fs_Reorder_Threshold_tons r = 10"
    by (simp add: fps_stock_def fps_stock_join_def ex_stock_levels_def ex_fps_def)
  from at_risk_iff[of ex_stock_levels ex_fps] r f have "At_Risk r" by simp
  with r f show ?thesis by (cases r) simp
qed

section \<open>The per-shop projection\<close>

lemma registry_row_unique:
  assumes "distinct (map FPS_ID fps)" and "f \<in> set fps"
  shows "filter (\<lambda>g. FPS_ID g = FPS_ID f) fps = [f]"
  using assms
proof (induction fps)
  case Nil
  then show ?case by simp
next
  case (Cons g gs)
  show ?case
  proof (cases "g = f")
    case True
    have "FPS_ID f \<notin> FPS_ID ` set gs"
      using Cons.prems(1) True by simp
    then have "\<forall>x\<in>set gs. FPS_ID x \<noteq> FPS_ID f"
      by (metis imageI)
    then have "filter (\<lambda>g. FPS_ID g = FPS_ID f) gs = []"
      by (simp add: filter_empty_conv)
    then show ?thesis using True by simp
  next
    case False
    then have "f \<in> set gs" using Cons.prems(2) by simp
    then have "FPS_ID g \<noteq> FPS_ID f" using Cons.prems(1) by auto
    then show ?thesis using Cons \<open>f \<in> set gs\<close> by simp
  qed
qed

lemma joined_snapshots:
  assumes "distinct (map FPS_ID fps)" and "f \<in> set fps"
  shows "map fs_Stock_Level_tons
           (filter (\<lambda>r. fs_FPS_ID r = FPS_ID f \<and> fs_Day r = d) (fps_stock stock_levels fps))
       = map sl_Stock_Level_tons (shop_snapshots stock_levels (FPS_ID f) d)"
proof (induction stock_levels)
  case Nil
  show ?case by (simp add: fps_stock_def shop_snapshots_def)
next
  case (Cons s sl)
  have cons: "fps_stock (s # sl) fps =
      (if sl_Entity_Type s = ''FPS''
       then map (fps_stock_join s) (filter (\<lambda>g. FPS_ID g = sl_Entity_ID s) fps) else [])
      @ fps_stock sl fps"
    by (simp add: fps_stock_def)
  have other: "filter (\<lambda>r. fs_FPS_ID r = FPS_ID f \<and> fs_Day r = d)
          (map (fps_stock_join s) (filter (\<lambda>g. FPS_ID g = sl_Entity_ID s) fps)) = []"
    if "\<not> (sl_Entity_ID s = FPS_ID f \<and> sl_Day s = d)"
    using that by (auto simp: filter_empty_conv fps_stock_join_def)
  have same: "filter (\<lambda>r. fs_FPS_ID r = FPS_ID f \<and> fs_Day r = d)
          (map (fps_stock_join s) (filter (\<lambda>g. FPS_ID g = sl_Entity_ID s) fps)) = [fps_stock_join s f]"
    if "sl_Entity_ID s = FPS_ID f" "sl_Day s = d"
    using that registry_row_unique[OF assms] by (simp add: fps_stock_join_def)
  show ?case
  proof (cases "sl_Entity_Type s = ''FPS'' \<and> sl_Entity_ID s = FPS_ID f \<and> sl_Day s = d")
    case True
    then show ?thesis
      using Cons.IH same unfolding cons
      by (simp add: shop_snapshots_def fps_stock_join_def)
  next
    case False
    then show ?thesis
      using Cons.IH other unfolding cons
      by (auto simp: shop_snapshots_def)
  qed
qed

lemma fold_min_Min: "fold min xs (x::int) = Min (set (x # xs))"
  by (rule Min.set_eq_fold[symmetric])

lemma fps_data_entry_value:
  assumes "distinct (map FPS_ID fps)" and "f \<in> set fps"
    and "length (shop_snapshots stock_levels (FPS_ID f) ed) \<le> 1"
  shows "\<exists>row. fps_data_entry fps (fps_stock stock_levels fps) dispatch_lg ed (FPS_ID f) = Inr row
      \<and> fd_FPS_ID row = FPS_ID f
      \<and> Current_Stock_tons row =
          (case shop_snapshots stock_levels (FPS_ID f) ed of [] \<Rightarrow> 0
           | x # _ \<Rightarrow> sl_Stock_Level_tons x)
      \<and> Next_Receipt_Day row =
          (if future_receipts dispatch_lg (FPS_ID f) ed = [] then None
           else Some (Min (set (future_receipts dispatch_lg (FPS_ID f) ed))))
      \<and> (Next_Receipt_Day row \<noteq> Some 0 \<longrightarrow>
            Days_To_Receipt row = map_option (\<lambda>n. n - ed) (Next_Receipt_Day row))"
proof -
  let ?snaps = "shop_snapshots stock_levels (FPS_ID f) ed"
  let ?fut = "future_receipts dispatch_lg (FPS_ID f) ed"
  have stock: "map fs_Stock_Level_tons
           (filter (\<lambda>r. fs_FPS_ID r = FPS_ID f \<and> fs_Day r = ed) (fps_stock stock_levels fps))
       = map sl_Stock_Level_tons ?snaps"
    by (rule joined_snapshots[OF assms(1,2)])
  have fut: "map lf_Day (filter (\<lambda>r. lf_FPS_ID r = FPS_ID f \<and> lf_Day r > ed) dispatch_lg) = ?fut"
    by (simp add: future_receipts_def)
  consider (none) "?snaps = []" | (one) x where "?snaps = [x]"
    using assms(3) by (cases ?snaps) (auto simp: Suc_le_eq)
  then show ?thesis
  proof cases
    case none
    show ?thesis
      unfolding fps_data_entry_def Let_def stock fut none
      by (cases ?fut) (auto simp: fold_min_Min series_float_def)
  next
    case one
    show ?thesis
      unfolding fps_data_entry_def Let_def stock fut one
      by (cases ?fut) (auto simp: fold_min_Min series_float_def)
  qed
qed

lemma fps_data_loop_rows:
  fixes Q :: "'id \<Rightarrow> 'id fps_data_row \<Rightarrow> bool"
  assumes "\<forall>fps_id\<in>set ids. \<exists>row. fps_data_entry fps fstock dispatch_lg ed fps_id = Inr row \<and> Q fps_id row"
  shows "\<exists>rows. fps_data_loop fps fstock dispatch_lg ed ids = Inr rows \<and> list_all2 Q ids rows"
  using assms
proof (induction ids)
  case Nil
  then show ?case by simp
next
  case (Cons a ids)
  then obtain row rows where "fps_data_entry fps fstock dispatch_lg ed a = Inr row" "Q a row"
    and "fps_data_loop fps fstock dispatch_lg ed ids = Inr rows" "list_all2 Q ids rows"
    by auto
  then show ?case by simp
qed

text \<open>
  C3, as the code has it. With unique shop ids in the registry and at most one snapshot
  per shop for the reference day, the projection returns one row per registered shop, in
  registry order. Its current stock is the value of the shop's snapshot for exactly the
  reference day, and 0 when there is no snapshot for that day (earlier snapshots are not
  consulted). Its next receipt day is the earliest dispatch day strictly after the
  reference day among the dispatches to that shop, absent when there is none; the gap
  is that day minus the reference day, absent with it (nothing is said of a next
  receipt on day 0).
\<close>

theorem fps_projection:
  assumes "distinct (map FPS_ID fps)"
    and "\<forall>f\<in>set fps. length (shop_snapshots stock_levels (FPS_ID f) (end_day s day_range)) \<le> 1"
  shows "\<exists>rows. fps_data s stock_levels fps dispatch_lg day_range = Inr rows
      \<and> length rows = length fps
      \<and> (\<forall>i<length fps.
            fd_FPS_ID (rows ! i) = FPS_ID (fps ! i)
          \<and> Current_Stock_tons (rows ! i) =
              (case shop_snapshots stock_levels (FPS_ID (fps ! i)) (end_day s day_range) of
                 [] \<Rightarrow> 0 | x # _ \<Rightarrow> sl_Stock_Level_tons x)
          \<and> Next_Receipt_Day (rows ! i) =
              (if future_receipts dispatch_lg (FPS_ID (fps ! i)) (end_day s day_range) = [] then None
               else Some (Min (set (future_receipts dispatch_lg (FPS_ID (fps ! i)) (end_day s day_range)))))
          \<and> (Next_Receipt_Day (rows ! i) \<noteq> Some 0 \<longrightarrow>
                Days_To_Receipt (rows ! i) =
                  map_option (\<lambda>n. n - end_day s day_range) (Next_Receipt_Day (rows ! i))))"
proof -
  define ed where "ed = end_day s day_range"
  define Q :: "'a \<Rightarrow> 'a fps_data_row \<Rightarrow> bool" where "Q = (\<lambda>fps_id row.
       fd_FPS_ID row = fps_id
     \<and> Current_Stock_tons row =
         (case shop_snapshots stock_levels fps_id ed of [] \<Rightarrow> 0 | x # _ \<Rightarrow> sl_Stock_Level_tons x)
     \<and> Next_Receipt_Day row =
         (if future_receipts dispatch_lg fps_id ed = [] then None
          else Some (Min (set (future_receipts dispatch_lg fps_id ed))))
     \<and> (Next_Receipt_Day row \<noteq> Some 0 \<longrightarrow>
           Days_To_Receipt row = map_option (\<lambda>n. n - ed) (Next_Receipt_Day row)))"
  have "\<exists>row. fps_data_entry fps (fps_stock stock_levels fps) dispatch_lg ed fps_id = Inr row
          \<and> Q fps_id row"
    if "fps_id \<in> set (map FPS_ID fps)" for fps_id
  proof -
    from that obtain f where f: "f \<in> set fps" "fps_id = FPS_ID f" by auto
    with assms(2) have "length (shop_snapshots stock_levels (FPS_ID f) ed) \<le> 1"
      by (simp add: ed_def)
    from fps_data_entry_value[OF assms(1) f(1) this, of dispatch_lg] show ?thesis
      unfolding Q_def f(2) .
  qed
  then have "\<exists>rows. fps_data_loop fps (fps_stock stock_levels fps) dispatch_lg ed (map FPS_ID fps)
                 = Inr rows \<and> list_all2 Q (map FPS_ID fps) rows"
    by (intro fps_data_loop_rows) blast
  then obtain rows where rows: "fps_data s stock_levels fps dispatch_lg day_range = Inr rows"
    and all: "list_all2 Q (map FPS_ID fps) rows"
    by (auto simp: fps_data_def ed_def)
  from all have len: "length rows = length fps"
    by (auto dest: list_all2_lengthD)
  have "Q (FPS_ID (fps ! i)) (rows ! i)" if "i < length fps" for i
    using list_all2_nthD[OF all, of i] that by simp
  then show ?thesis
    using rows len unfolding Q_def ed_def by blast
qed

theorem fps_projection_witness:
  "distinct (map FPS_ID ex_fps)
   \<and> length (shop_snapshots ex_stock_levels 11 (end_day ex_settings (0, 1))) \<le> 1
   \<and> map_sum id (map Current_Stock_tons)
        (fps_data ex_settings ex_stock_levels ex_fps ex_dispatch_lg (0, 1)) = Inr [10]
   \<and> map_sum id (map Next_Receipt_Day)
        (fps_data ex_settings ex_stock_levels ex_fps ex_dispatch_lg (0, 1)) = Inr [Some 2]
   \<and> map_sum id (map Days_To_Receipt)
        (fps_data ex_settings ex_stock_levels ex_fps ex_dispatch_lg (0, 1)) = Inr [Some 1]"
proof -
  have d: "distinct (map FPS_ID ex_fps)" by code_simp
  have u: "length (shop_snapshots ex_stock_levels 11 (end_day ex_settings (0, 1))) \<le> 1"
    by code_simp
  then have u': "\<forall>f\<in>set ex_fps.
      length (shop_snapshots ex_stock_levels (FPS_ID f) (end_day ex_settings (0, 1))) \<le> 1"
    by (simp add: ex_fps_def)
  have id0: "FPS_ID (ex_fps ! 0) = 11" and len: "length ex_fps = 1"
    by (simp_all add: ex_fps_def)
  have st: "(case shop_snapshots ex_stock_levels 11 (end_day ex_settings (0, 1)) of
                 [] \<Rightarrow> 0 | x # _ \<Rightarrow> sl_Stock_Level_tons x) = 10"
    by code_simp
  have nx: "(if future_receipts ex_dispatch_lg 11 (end_day ex_settings (0, 1)) = [] then None
               else Some (Min (set (future_receipts ex_dispatch_lg 11 (end_day ex_settings (0, 1))))))
            = Some 2"
    by code_simp
  have ed: "end_day ex_settings (0, 1) = 1" by code_simp
  from fps_projection[OF d u', of ex_dispatch_lg]
  obtain rows where rows: "fps_data ex_settings ex_stock_levels ex_fps ex_dispatch_lg (0, 1) = Inr rows"
    and l: "length rows = length ex_fps"
    and p: "\<forall>i<length ex_fps.
            fd_FPS_ID (rows ! i) = FPS_ID (ex_fps ! i)
          \<and> Current_Stock_tons (rows ! i) =
              (case shop_snapshots ex_stock_levels (FPS_ID (ex_fps ! i)) (end_day ex_settings (0, 1)) of
                 [] \<Rightarrow> 0 | x # _ \<Rightarrow> sl_Stock_Level_tons x)
          \<and> Next_Receipt_Day (rows ! i) =
              (if future_receipts ex_dispatch_lg (FPS_ID (ex_fps ! i)) (end_day ex_settings (0, 1)) = [] then None
               else Some (Min (set (future_receipts ex_dispatch_lg (FPS_ID (ex_fps ! i)) (end_day ex_settings (0, 1))))))
          \<and> (Next_Receipt_Day (rows ! i) \<noteq> Some 0 \<longrightarrow>
                Days_To_Receipt (rows ! i) =
                  map_option (\<lambda>n. n - end_day ex_settings (0, 1)) (Next_Receipt_Day (rows ! i)))"
    by blast
  have "0 < length ex_fps" by (simp add: len)
  note p0 = p[rule_format, OF this, unfolded id0 st nx]
  from p0 have c: "Current_Stock_tons (rows ! 0) = 10"
    and n: "Next_Receipt_Day (rows ! 0) = Some 2" by simp_all
  from p0 n ed have t: "Days_To_Receipt (rows ! 0) = Some 1" by simp
  from l len have l: "length rows = 1" by simp
  from l obtain r where "rows = [r]"
    by (cases rows) auto
  with rows c n t d u show ?thesis by simp
qed

text \<open>
  The specification has zero reported only when no snapshot exists at or before the
  reference day. Shop 11 has a snapshot of 10 tons on day 1; for reference day 2 the
  projection reports 0.
\<close>

theorem fps_stock_not_carried_counterexample:
  "map_sum id (map Current_Stock_tons)
      (fps_data ex_settings ex_stock_levels ex_fps ex_dispatch_lg (1, 2)) = Inr [0]
   \<and> end_day ex_settings (1, 2) = 2
   \<and> map sl_Stock_Level_tons (shop_snapshots_upto ex_stock_levels 11 2) = [10]"
  by code_simp

text \<open>
  The gap is guarded by \<^verbatim>\<open>if next_day\<close>: for a reference day \<open>-1\<close> and a dispatch on
  day 0 the next receipt day is day 0 and the gap is absent, not 1.
\<close>

lemma days_to_receipt_day_zero:
  "map_sum id (\<lambda>r. (Next_Receipt_Day r, Days_To_Receipt r))
     (fps_data_entry ex_fps (fps_stock ex_stock_levels ex_fps)
        [\<lparr>lf_Day = 0, lf_LG_ID = 1, lf_FPS_ID = 11, lf_Vehicle_ID = 21, lf_Quantity_tons = 5\<rparr>]
        (- 1) 11) = Inr (Some 0, None)"
  by code_simp

end
